theory Spec2Isabelle
  imports Complex_Main
begin

section \<open>The voxel store of 3D-VoxelBuilder\<close>

text \<open>
  A shallow embedding of the zustand store (\<^verbatim>\<open>useStore\<close>: \<^verbatim>\<open>addVoxel\<close>,
  \<^verbatim>\<open>removeVoxel\<close>, \<^verbatim>\<open>pushPullFace\<close>, \<^verbatim>\<open>resetWorld\<close>), of the normal
  quantisation of \<^verbatim>\<open>Voxel.tsx\<close> and \<^verbatim>\<open>VoxelWorld.tsx\<close>, and of
  \<^verbatim>\<open>findVoxelsInSamePlane\<close> of \<^verbatim>\<open>VoxelWorld.tsx\<close>.

  Numbers. A JavaScript number is modelled as a real: \<open>+\<close>, \<open>*\<close>, \<open>/\<close> are exact,
  \<^verbatim>\<open>===\<close> is equality and \<^verbatim>\<open><\<close> is the order. Rounding error of IEEE doubles, NaN,
  infinities and the sign of zero are not modelled. The tolerance \<open>0.01\<close> and the cell size
  \<open>0.3\<close> are the literals of the source.
\<close>

subsection \<open>Data\<close>

record Vector3 =
  x :: real
  y :: real
  z :: real

record Voxel =
  position :: Vector3
  color :: string

record Face =
  normal :: Vector3

datatype ToolMode = Add | Remove | PushPull

record StoreState =
  voxels :: "Voxel list"
  hoveredVoxel :: "Voxel option"
  selectedFace :: "Face option"
  toolMode :: ToolMode

subsection \<open>The operations of three.js that the store uses\<close>

definition add :: "Vector3 \<Rightarrow> Vector3 \<Rightarrow> Vector3" where
  "add a b = \<lparr>x = x a + x b, y = y a + y b, z = z a + z b\<rparr>"

definition multiplyScalar :: "Vector3 \<Rightarrow> real \<Rightarrow> Vector3" where
  "multiplyScalar a s = \<lparr>x = x a * s, y = y a * s, z = z a * s\<rparr>"


text \<open>\<^verbatim>\<open>Math.round\<close>: the nearest integer, a tie going up.\<close>

definition Math_round :: "real \<Rightarrow> int" where
  "Math_round r = \<lfloor>r + 1 / 2\<rfloor>"

subsection \<open>The store\<close>

definition isSamePosition :: "Vector3 \<Rightarrow> Vector3 \<Rightarrow> bool" where
  "isSamePosition a b \<longleftrightarrow> x a = x b \<and> y a = y b \<and> z a = z b"

definition platform :: "Voxel list" where
  "platform =
    [\<lparr>position = \<lparr>x = 0, y = 0, z = 0\<rparr>, color = ''#1e88e5''\<rparr>,
     \<lparr>position = \<lparr>x = 0.3, y = 0, z = 0\<rparr>, color = ''#1e88e5''\<rparr>,
     \<lparr>position = \<lparr>x = 0, y = 0, z = 0.3\<rparr>, color = ''#1e88e5''\<rparr>,
     \<lparr>position = \<lparr>x = 0.3, y = 0, z = 0.3\<rparr>, color = ''#1e88e5''\<rparr>]"

definition useStore :: StoreState where
  "useStore = \<lparr>voxels = platform, hoveredVoxel = None, selectedFace = None, toolMode = Add\<rparr>"

definition setHoveredVoxel :: "StoreState \<Rightarrow> Voxel option \<Rightarrow> StoreState" where
  "setHoveredVoxel state voxel = state\<lparr>hoveredVoxel := voxel\<rparr>"

definition setSelectedFace :: "StoreState \<Rightarrow> Face option \<Rightarrow> StoreState" where
  "setSelectedFace state face = state\<lparr>selectedFace := face\<rparr>"


definition addVoxel :: "StoreState \<Rightarrow> Voxel \<Rightarrow> StoreState" where
  "addVoxel state voxel =
    (let exists = list_ex (\<lambda>v. isSamePosition (position v) (position voxel)) (voxels state)
     in if \<not> exists
        then state\<lparr>voxels := voxels state @
               [\<lparr>position = \<lparr>x = x (position voxel), y = y (position voxel),
                               z = z (position voxel)\<rparr>,
                 color = color voxel\<rparr>]\<rparr>
        else state)"



text \<open>
  The comparison that \<^verbatim>\<open>pushPullFace\<close> and \<^verbatim>\<open>findVoxelsInSamePlane\<close> write out at
  every occupancy test: each coordinate differs by less than \<open>0.01\<close>.
\<close>

definition closeTo :: "Vector3 \<Rightarrow> Vector3 \<Rightarrow> bool" where
  "closeTo a b \<longleftrightarrow> \<bar>x a - x b\<bar> < 0.01 \<and> \<bar>y a - y b\<bar> < 0.01 \<and> \<bar>z a - z b\<bar> < 0.01"

text \<open>\<^verbatim>\<open>vs.some(v => ...)\<close> with that comparison against \<open>p\<close>.\<close>

definition someCloseTo :: "Voxel list \<Rightarrow> Vector3 \<Rightarrow> bool" where
  "someCloseTo vs p = list_ex (\<lambda>v. closeTo (position v) p) vs"

text \<open>The plane \<open>a x + b y + c z + d = 0\<close> through \<open>facePosition\<close>, and the distance to it.\<close>

definition distToPlane :: "Vector3 \<Rightarrow> Vector3 \<Rightarrow> Vector3 \<Rightarrow> real" where
  "distToPlane faceNormal facePosition p =
    (let a = x faceNormal; b = y faceNormal; c = z faceNormal;
         d = - (a * x facePosition + b * y facePosition + c * z facePosition)
     in \<bar>a * x p + b * y p + c * z p + d\<bar>)"

text \<open>The first loop of \<^verbatim>\<open>pushPullFace\<close>: the voxels of the plane with no neighbour along the normal.\<close>

definition voxelsInPlane :: "Vector3 \<Rightarrow> Vector3 \<Rightarrow> Voxel list \<Rightarrow> Voxel list" where
  "voxelsInPlane faceNormal facePosition vs =
    filter (\<lambda>voxel.
      distToPlane faceNormal facePosition (position voxel) < 0.01 \<and>
      (let checkPos = add (position voxel) (multiplyScalar faceNormal 0.3);
           hasNeighbor = someCloseTo vs checkPos
       in \<not> hasNeighbor)) vs"

text \<open>
  The push loop: for each voxel of the plane and each \<open>i\<close> from 1 to \<open>steps\<close>, a new voxel
  unless \<open>updatedVoxels\<close> (still the list before the call) has one close to its position.
\<close>

definition newVoxels :: "Vector3 \<Rightarrow> int \<Rightarrow> Voxel list \<Rightarrow> Voxel list \<Rightarrow> Voxel list" where
  "newVoxels faceNormal steps updatedVoxels inPlane =
    concat (map (\<lambda>voxel. concat (map (\<lambda>i.
      (let newPosition = add (position voxel) (multiplyScalar faceNormal (real_of_int i * 0.3));
           exists = someCloseTo updatedVoxels newPosition
       in if \<not> exists then [\<lparr>position = newPosition, color = color voxel\<rparr>] else []))
      [1..steps])) inPlane)"

text \<open>
  The pull loop. The source collects the keys \<^verbatim>\<open>`${x},${y},${z}`\<close> of the voxels it finds in
  a \<^verbatim>\<open>Set<string>\<close>; two such keys are equal exactly when the positions are, so the model
  collects the positions, and uses the collection only through emptiness and membership.
\<close>

definition positionsToRemove :: "Vector3 \<Rightarrow> int \<Rightarrow> Voxel list \<Rightarrow> Voxel list \<Rightarrow> Vector3 list" where
  "positionsToRemove faceNormal steps vs inPlane =
    concat (map (\<lambda>voxel. concat (map (\<lambda>i.
      (let checkPosition = add (position voxel) (multiplyScalar faceNormal (- real_of_int i * 0.3))
       in map position (filter (\<lambda>existingVoxel. closeTo (position existingVoxel) checkPosition) vs)))
      [1..steps])) inPlane)"

text \<open>The argument \<open>normal_arg\<close> is the source's parameter \<^verbatim>\<open>normal\<close>, which the body never reads.\<close>

definition pushPullFace :: "StoreState \<Rightarrow> Vector3 \<Rightarrow> real \<Rightarrow> StoreState" where
  "pushPullFace state normal_arg distance =
    (let normalizedDistance = real_of_int (Math_round (distance / 0.3)) * 0.3 in
     if normalizedDistance = 0 then state
     else case (selectedFace state, hoveredVoxel state) of
       (Some face, Some hovered) \<Rightarrow>
         (let faceNormal = normal face;
              facePosition = position hovered;
              inPlane = voxelsInPlane faceNormal facePosition (voxels state)
          in if length inPlane = 0 then state
             else if normalizedDistance > 0 then
               (let steps = Math_round (\<bar>normalizedDistance\<bar> / 0.3)
                in state\<lparr>voxels := voxels state @
                     newVoxels faceNormal steps (voxels state) inPlane\<rparr>)
             else if normalizedDistance < 0 then
               (let steps = Math_round (\<bar>normalizedDistance\<bar> / 0.3);
                    toRemove = positionsToRemove faceNormal steps (voxels state) inPlane
                in if toRemove \<noteq> []
                   then state\<lparr>voxels := filter (\<lambda>voxel. position voxel \<notin> set toRemove)
                                             (voxels state)\<rparr>
                   else state\<lparr>voxels := voxels state\<rparr>)
             else state\<lparr>voxels := voxels state\<rparr>)
     | _ \<Rightarrow> state)"

subsection \<open>The pointer handler and the normal it derives\<close>

text \<open>
  \<^verbatim>\<open>handlePointerEnter\<close> of \<^verbatim>\<open>Voxel.tsx\<close> (and, with the same text,
  \<^verbatim>\<open>checkGridSnapping\<close> of \<^verbatim>\<open>VoxelWorld.tsx\<close>) turns the world normal of the face
  under the pointer into an axis vector and stores the voxel and that normal. The model is
  the path on which the ray hit has a face; otherwise the handler leaves the store alone.
\<close>

definition normalizedNormal :: "Vector3 \<Rightarrow> Vector3" where
  "normalizedNormal worldNormal =
    (let absX = \<bar>x worldNormal\<bar>; absY = \<bar>y worldNormal\<bar>; absZ = \<bar>z worldNormal\<bar>
     in if absX > absY \<and> absX > absZ
        then \<lparr>x = (if x worldNormal > 0 then 1 else - 1), y = 0, z = 0\<rparr>
        else if absY > absX \<and> absY > absZ
        then \<lparr>x = 0, y = (if y worldNormal > 0 then 1 else - 1), z = 0\<rparr>
        else \<lparr>x = 0, y = 0, z = (if z worldNormal > 0 then 1 else - 1)\<rparr>)"

definition handlePointerEnter :: "StoreState \<Rightarrow> Voxel \<Rightarrow> Vector3 \<Rightarrow> StoreState" where
  "handlePointerEnter state voxel worldNormal =
    setSelectedFace (setHoveredVoxel state (Some voxel))
      (Some \<lparr>normal = normalizedNormal worldNormal\<rparr>)"

text \<open>
  The specification's \<open>dominantAxis\<close>, from its words: the axis of the largest absolute
  component with that component's sign, a tie going to X before Y before Z.
\<close>

definition dominantAxis :: "Vector3 \<Rightarrow> Vector3" where
  "dominantAxis v =
    (if \<bar>x v\<bar> \<ge> \<bar>y v\<bar> \<and> \<bar>x v\<bar> \<ge> \<bar>z v\<bar> then \<lparr>x = sgn (x v), y = 0, z = 0\<rparr>
     else if \<bar>y v\<bar> \<ge> \<bar>z v\<bar> then \<lparr>x = 0, y = sgn (y v), z = 0\<rparr>
     else \<lparr>x = 0, y = 0, z = sgn (z v)\<rparr>)"

subsection \<open>\<^verbatim>\<open>findVoxelsInSamePlane\<close> of \<^verbatim>\<open>VoxelWorld.tsx\<close>\<close>










subsection \<open>The grid and runs of the store\<close>

text \<open>
  Snapping, as \<^verbatim>\<open>checkGridSnapping\<close> does it to a position before it builds a voxel from
  it: each coordinate becomes \<^verbatim>\<open>Math.round(c / 0.3) * 0.3\<close>.
\<close>

definition snap :: "Vector3 \<Rightarrow> Vector3" where
  "snap p = \<lparr>x = real_of_int (Math_round (x p / 0.3)) * 0.3,
             y = real_of_int (Math_round (y p / 0.3)) * 0.3,
             z = real_of_int (Math_round (z p / 0.3)) * 0.3\<rparr>"

text \<open>
  The specification's \<open>sameCell\<close>, from its words: the snapped positions match within the
  tolerance. \<open>uniqueCells\<close> says that no two voxels of a list are in the same cell.
\<close>

definition sameCell :: "Vector3 \<Rightarrow> Vector3 \<Rightarrow> bool" where
  "sameCell p q = closeTo (snap p) (snap q)"





text \<open>The six axis unit vectors, the only normals the pointer handlers select.\<close>

definition axisUnit :: "Vector3 \<Rightarrow> bool" where
  "axisUnit n \<longleftrightarrow>
     (\<bar>x n\<bar> = 1 \<and> y n = 0 \<and> z n = 0) \<or>
     (x n = 0 \<and> \<bar>y n\<bar> = 1 \<and> z n = 0) \<or>
     (x n = 0 \<and> y n = 0 \<and> \<bar>z n\<bar> = 1)"

text \<open>A position is on the grid when snapping leaves it as it is.\<close>

definition onGrid :: "Vector3 \<Rightarrow> bool" where
  "onGrid p \<longleftrightarrow> snap p = p"

text \<open>
  The position \<open>i\<close> cells along the normal, as the push and pull loops compute it:
  \<^verbatim>\<open>position + normal * (i * 0.3)\<close>.
\<close>

definition shift :: "Vector3 \<Rightarrow> Vector3 \<Rightarrow> int \<Rightarrow> Vector3" where
  "shift n p i = add p (multiplyScalar n (real_of_int i * 0.3))"


text \<open>
  A state on the grid: every voxel is on the grid, no two voxels have the same position,
  and the selected normal is an axis unit vector.
\<close>

definition gridState :: "StoreState \<Rightarrow> bool" where
  "gridState s \<longleftrightarrow>
     list_all (\<lambda>v. onGrid (position v)) (voxels s) \<and>
     distinct (map position (voxels s)) \<and>
     (case selectedFace s of None \<Rightarrow> True | Some f \<Rightarrow> axisUnit (normal f))"

text \<open>
  For the round trip of push and pull: the coordinate of \<open>p\<close> along the normal, the voxel
  that a push creates \<open>i\<close> cells in front of \<open>g\<close>, and the condition that no voxel of the
  list lies in any of the \<open>k + 1\<close> planes in front of the plane through \<open>ph\<close>.
\<close>

definition alongNormal :: "Vector3 \<Rightarrow> Vector3 \<Rightarrow> real" where
  "alongNormal n p = x n * x p + y n * y p + z n * z p"

definition extruded :: "Vector3 \<Rightarrow> Voxel \<Rightarrow> int \<Rightarrow> Voxel" where
  "extruded n g i = \<lparr>position = shift n (position g) i, color = color g\<rparr>"

definition slabFree :: "Voxel list \<Rightarrow> Vector3 \<Rightarrow> Vector3 \<Rightarrow> int \<Rightarrow> bool" where
  "slabFree vs n ph k \<longleftrightarrow>
     list_all (\<lambda>v. list_all (\<lambda>i. \<not> distToPlane n (shift n ph i) (position v) < 0.01) [1..k + 1]) vs"


text \<open>
  The specification's \<open>contains\<close> and \<open>isExposed\<close>, from its words: a cell is occupied
  when some voxel is in the same cell, and a face is exposed when the cell next to the
  voxel along the normal is not occupied. A \<open>VoxelSet\<close> of the specification holds
  snapped positions, here positions near the grid, one voxel per cell.
\<close>

definition contains :: "Voxel list \<Rightarrow> Vector3 \<Rightarrow> bool" where
  "contains vs p = list_ex (\<lambda>v. sameCell (position v) p) vs"







subsection \<open>Zero distance and empty selection\<close>

lemma Math_round_zero_iff: "Math_round r = 0 \<longleftrightarrow> - (1 / 2) \<le> r \<and> r < 1 / 2"
  unfolding Math_round_def by (simp add: floor_eq_iff) linarith

text \<open>
  C6. When the raw distance rounds to zero layers (\<open>Math.round(d / 0.3) = 0\<close>, in particular
  when \<open>|d| < 0.15\<close>), \<open>pushPullFace\<close> returns the state it was given: the voxel list and
  every other field are unchanged.
\<close>

theorem pushPullFace_zero_distance:
  "Math_round (d / 0.3) = 0 \<or> \<bar>d\<bar> < 0.15 \<Longrightarrow> pushPullFace state n d = state"
proof -
  assume "Math_round (d / 0.3) = 0 \<or> \<bar>d\<bar> < 0.15"
  then have "Math_round (d / 0.3) = 0"
    by (auto simp: Math_round_zero_iff)
  then show ?thesis
    by (simp add: pushPullFace_def)
qed

theorem pushPullFace_zero_distance_witness:
  "\<bar>0.1 :: real\<bar> < 0.15 \<and>
   pushPullFace (useStore\<lparr>hoveredVoxel := Some (hd platform),
                          selectedFace := Some \<lparr>normal = \<lparr>x = 0, y = 1, z = 0\<rparr>\<rparr>\<rparr>)
     \<lparr>x = 0, y = 1, z = 0\<rparr> 0.1
   = useStore\<lparr>hoveredVoxel := Some (hd platform),
              selectedFace := Some \<lparr>normal = \<lparr>x = 0, y = 1, z = 0\<rparr>\<rparr>\<rparr>"
  using pushPullFace_zero_distance [of "0.1"] by simp

text \<open>
  C7. With a distance that rounds to a nonzero number of layers, \<open>pushPullFace\<close> returns the
  state unchanged when no face is selected, when no voxel is hovered, or when no voxel of
  the plane has its face exposed.
\<close>

theorem pushPullFace_empty_selection:
  "Math_round (d / 0.3) \<noteq> 0 \<Longrightarrow>
   selectedFace state = None \<or> hoveredVoxel state = None \<or>
   (\<exists>face hovered. selectedFace state = Some face \<and> hoveredVoxel state = Some hovered \<and>
      voxelsInPlane (normal face) (position hovered) (voxels state) = []) \<Longrightarrow>
   pushPullFace state n d = state"
  by (auto simp: pushPullFace_def Let_def split: option.splits)

theorem pushPullFace_empty_selection_witness:
  "Math_round (0.3 / 0.3) \<noteq> 0 \<and>
   pushPullFace useStore \<lparr>x = 0, y = 1, z = 0\<rparr> 0.3 = useStore \<and>
   voxelsInPlane \<lparr>x = 0, y = 1, z = 0\<rparr> \<lparr>x = 0, y = 3, z = 0\<rparr> platform = [] \<and>
   pushPullFace
     (handlePointerEnter useStore \<lparr>position = \<lparr>x = 0, y = 3, z = 0\<rparr>, color = ''#1e88e5''\<rparr>
        \<lparr>x = 0, y = 1, z = 0\<rparr>)
     \<lparr>x = 0, y = 1, z = 0\<rparr> 0.3 =
   handlePointerEnter useStore \<lparr>position = \<lparr>x = 0, y = 3, z = 0\<rparr>, color = ''#1e88e5''\<rparr>
     \<lparr>x = 0, y = 1, z = 0\<rparr>"
proof -
  let ?up = "\<lparr>x = 0, y = 1, z = 0\<rparr> :: Vector3"
  let ?h = "\<lparr>position = \<lparr>x = 0, y = 3, z = 0\<rparr>, color = ''#1e88e5''\<rparr>"
  let ?s = "handlePointerEnter useStore ?h ?up"
  have r: "Math_round (0.3 / 0.3) \<noteq> 0"
    by (simp add: Math_round_def)
  have none: "selectedFace useStore = None"
    by (simp add: useStore_def)
  have f: "selectedFace ?s = Some \<lparr>normal = ?up\<rparr>" and h: "hoveredVoxel ?s = Some ?h"
    and vs: "voxels ?s = platform"
    by (simp_all add: handlePointerEnter_def normalizedNormal_def setSelectedFace_def
        setHoveredVoxel_def useStore_def)
  have empty: "voxelsInPlane ?up \<lparr>x = 0, y = 3, z = 0\<rparr> platform = []"
    by (simp add: voxelsInPlane_def platform_def distToPlane_def)
  have "\<exists>face hovered. selectedFace ?s = Some face \<and> hoveredVoxel ?s = Some hovered \<and>
      voxelsInPlane (normal face) (position hovered) (voxels ?s) = []"
    unfolding f h vs using empty by simp
  with r none empty show ?thesis
    using pushPullFace_empty_selection [of "0.3" useStore ?up]
      pushPullFace_empty_selection [of "0.3" ?s ?up]
    by blast
qed

subsection \<open>Adding a voxel\<close>

text \<open>
  C10. \<open>addVoxel\<close> compares positions exactly: when the candidate's position differs from
  every stored position in at least one coordinate, by any amount, the voxel is appended.
\<close>

theorem addVoxel_exact_equality:
  "\<forall>v \<in> set (voxels state). x (position v) \<noteq> x (position voxel) \<or>
      y (position v) \<noteq> y (position voxel) \<or> z (position v) \<noteq> z (position voxel) \<Longrightarrow>
   addVoxel state voxel =
     state\<lparr>voxels := voxels state @ [\<lparr>position = position voxel, color = color voxel\<rparr>]\<rparr>"
  by (auto simp: addVoxel_def isSamePosition_def list_ex_iff)

theorem addVoxel_exact_equality_witness:
  "closeTo \<lparr>x = 0.001, y = 0, z = 0\<rparr> \<lparr>x = 0, y = 0, z = 0\<rparr> \<and>
   voxels (addVoxel useStore \<lparr>position = \<lparr>x = 0.001, y = 0, z = 0\<rparr>, color = ''#ff0000''\<rparr>) =
     platform @ [\<lparr>position = \<lparr>x = 0.001, y = 0, z = 0\<rparr>, color = ''#ff0000''\<rparr>]"
  using addVoxel_exact_equality
    [of useStore "\<lparr>position = \<lparr>x = 0.001, y = 0, z = 0\<rparr>, color = ''#ff0000''\<rparr>"]
  by (simp add: useStore_def platform_def closeTo_def)

text \<open>
  C5, as stated, fails. The cell of \<open>(0.001, 0, 0)\<close> is occupied on the initial store, by
  the voxel at \<open>(0, 0, 0)\<close>, and \<open>addVoxel\<close> at that position appends a fifth voxel.
\<close>

theorem addVoxel_occupied_cell_counterexample:
  "contains (voxels useStore) \<lparr>x = 0.001, y = 0, z = 0\<rparr> \<and>
   voxels (addVoxel useStore \<lparr>position = \<lparr>x = 0.001, y = 0, z = 0\<rparr>, color = ''#1e88e5''\<rparr>) =
     platform @ [\<lparr>position = \<lparr>x = 0.001, y = 0, z = 0\<rparr>, color = ''#1e88e5''\<rparr>]"
  by (simp add: contains_def sameCell_def snap_def closeTo_def Math_round_def useStore_def
      platform_def addVoxel_def isSamePosition_def)

text \<open>
  C5, amended. When some stored voxel has exactly the candidate's position, \<open>addVoxel\<close>
  returns the state it was given; the store reports the failure in no other way. A second
  \<open>addVoxel\<close> at the same position changes nothing, and after the two calls on a state
  that had no voxel exactly there, exactly one voxel has that position.
\<close>

theorem addVoxel_occupied:
  "(list_ex (\<lambda>v. isSamePosition (position v) (position voxel)) (voxels state) \<longrightarrow>
      addVoxel state voxel = state) \<and>
   (position voxel' = position voxel \<longrightarrow>
      addVoxel (addVoxel state voxel) voxel' = addVoxel state voxel) \<and>
   (position voxel' = position voxel \<longrightarrow>
    \<not> list_ex (\<lambda>v. isSamePosition (position v) (position voxel)) (voxels state) \<longrightarrow>
      length (filter (\<lambda>v. isSamePosition (position v) (position voxel))
                (voxels (addVoxel (addVoxel state voxel) voxel'))) = 1)"
  by (auto simp: addVoxel_def isSamePosition_def list_ex_iff Let_def)

theorem addVoxel_occupied_witness:
  "addVoxel useStore \<lparr>position = \<lparr>x = 0, y = 0, z = 0\<rparr>, color = ''#ff0000''\<rparr> = useStore \<and>
   addVoxel (addVoxel useStore \<lparr>position = \<lparr>x = 0, y = 0.3, z = 0\<rparr>, color = ''#ff0000''\<rparr>)
       \<lparr>position = \<lparr>x = 0, y = 0.3, z = 0\<rparr>, color = ''#00ff00''\<rparr> =
     addVoxel useStore \<lparr>position = \<lparr>x = 0, y = 0.3, z = 0\<rparr>, color = ''#ff0000''\<rparr> \<and>
   length (filter (\<lambda>v. isSamePosition (position v) \<lparr>x = 0, y = 0.3, z = 0\<rparr>)
     (voxels (addVoxel (addVoxel useStore \<lparr>position = \<lparr>x = 0, y = 0.3, z = 0\<rparr>, color = ''#ff0000''\<rparr>)
        \<lparr>position = \<lparr>x = 0, y = 0.3, z = 0\<rparr>, color = ''#00ff00''\<rparr>))) = 1"
proof -
  let ?v0 = "\<lparr>position = \<lparr>x = 0, y = 0, z = 0\<rparr>, color = ''#ff0000''\<rparr>"
  let ?v1 = "\<lparr>position = \<lparr>x = 0, y = 0.3, z = 0\<rparr>, color = ''#ff0000''\<rparr>"
  let ?v2 = "\<lparr>position = \<lparr>x = 0, y = 0.3, z = 0\<rparr>, color = ''#00ff00''\<rparr>"
  have occupied: "list_ex (\<lambda>v. isSamePosition (position v) (position ?v0)) (voxels useStore)"
    by (simp add: useStore_def platform_def isSamePosition_def)
  have free: "\<not> list_ex (\<lambda>v. isSamePosition (position v) (position ?v1)) (voxels useStore)"
    by (simp add: useStore_def platform_def isSamePosition_def)
  have same: "position ?v2 = position ?v1"
    by simp
  have p1: "position ?v1 = \<lparr>x = 0, y = 0.3, z = 0\<rparr>"
    by simp
  from addVoxel_occupied [of ?v0 useStore] occupied
  have first: "addVoxel useStore ?v0 = useStore"
    by blast
  from addVoxel_occupied [of ?v1 useStore ?v2] free same
  have "addVoxel (addVoxel useStore ?v1) ?v2 = addVoxel useStore ?v1 \<and>
    length (filter (\<lambda>v. isSamePosition (position v) (position ?v1))
      (voxels (addVoxel (addVoxel useStore ?v1) ?v2))) = 1"
    by blast
  with first show ?thesis
    unfolding p1 by blast
qed

subsection \<open>What push-pull leaves alone\<close>

text \<open>
  C9. With a positive number of layers the new voxel list is the old one followed by new
  voxels, so every old voxel is still there with its position and colour. With a negative
  number of layers the new list is the old one with some voxels filtered out: nothing is
  added and what stays is unchanged.
\<close>

theorem pushPullFace_frame:
  "(0 < Math_round (d / 0.3) \<longrightarrow>
      (\<exists>new. voxels (pushPullFace state n d) = voxels state @ new)) \<and>
   (Math_round (d / 0.3) < 0 \<longrightarrow>
      (\<exists>keep. voxels (pushPullFace state n d) = filter keep (voxels state)))"
proof (intro conjI impI)
  assume "0 < Math_round (d / 0.3)"
  then show "\<exists>new. voxels (pushPullFace state n d) = voxels state @ new"
    by (auto simp: pushPullFace_def Let_def split: option.splits)
next
  assume neg: "Math_round (d / 0.3) < 0"
  have same: "voxels state = filter (\<lambda>_. True) (voxels state)"
    by simp
  show "\<exists>keep. voxels (pushPullFace state n d) = filter keep (voxels state)"
  proof (cases "voxels (pushPullFace state n d) = voxels state")
    case True
    with same show ?thesis by metis
  next
    case False
    with neg show ?thesis
      by (auto simp: pushPullFace_def Let_def split: option.splits if_splits)
  qed
qed

theorem pushPullFace_frame_witness:
  "0 < Math_round (0.3 / 0.3) \<and>
   (\<exists>new. voxels (pushPullFace (handlePointerEnter useStore (hd platform) \<lparr>x = 0, y = 1, z = 0\<rparr>)
              \<lparr>x = 0, y = 1, z = 0\<rparr> 0.3) = platform @ new) \<and>
   Math_round (- 0.3 / 0.3) < 0 \<and>
   (\<exists>keep. voxels (pushPullFace (handlePointerEnter useStore (hd platform) \<lparr>x = 0, y = 1, z = 0\<rparr>)
              \<lparr>x = 0, y = 1, z = 0\<rparr> (- 0.3)) = filter keep platform)"
proof -
  let ?s = "handlePointerEnter useStore (hd platform) \<lparr>x = 0, y = 1, z = 0\<rparr>"
  have v: "voxels ?s = platform"
    by (simp add: handlePointerEnter_def setSelectedFace_def setHoveredVoxel_def useStore_def)
  show ?thesis
    using pushPullFace_frame [of "0.3" ?s "\<lparr>x = 0, y = 1, z = 0\<rparr>"]
      pushPullFace_frame [of "- 0.3" ?s "\<lparr>x = 0, y = 1, z = 0\<rparr>"]
    by (simp add: v Math_round_def)
qed

subsection \<open>Extruding the platform\<close>

text \<open>
  C4. On the initial store, with the pointer on the top face of a voxel at \<open>y = 0\<close>,
  \<open>pushPullFace\<close> with distance \<open>0.3\<close> appends four voxels at \<open>y = 0.3\<close>, one above each
  platform voxel and with its colour; the list grows from 4 to 8 voxels.
\<close>

theorem extrude_platform:
  "y (position h) = 0 \<Longrightarrow>
   voxels (pushPullFace (handlePointerEnter useStore h \<lparr>x = 0, y = 1, z = 0\<rparr>)
             \<lparr>x = 0, y = 1, z = 0\<rparr> 0.3) =
     platform @
     [\<lparr>position = \<lparr>x = 0, y = 0.3, z = 0\<rparr>, color = ''#1e88e5''\<rparr>,
      \<lparr>position = \<lparr>x = 0.3, y = 0.3, z = 0\<rparr>, color = ''#1e88e5''\<rparr>,
      \<lparr>position = \<lparr>x = 0, y = 0.3, z = 0.3\<rparr>, color = ''#1e88e5''\<rparr>,
      \<lparr>position = \<lparr>x = 0.3, y = 0.3, z = 0.3\<rparr>, color = ''#1e88e5''\<rparr>] \<and>
   length platform = 4 \<and>
   length (voxels (pushPullFace (handlePointerEnter useStore h \<lparr>x = 0, y = 1, z = 0\<rparr>)
             \<lparr>x = 0, y = 1, z = 0\<rparr> 0.3)) = 8"
  by (simp add: pushPullFace_def handlePointerEnter_def normalizedNormal_def
      setSelectedFace_def setHoveredVoxel_def useStore_def
      platform_def voxelsInPlane_def distToPlane_def someCloseTo_def closeTo_def add_def
      multiplyScalar_def newVoxels_def Math_round_def Let_def)

theorem extrude_platform_witness:
  "voxels (pushPullFace
      (handlePointerEnter useStore \<lparr>position = \<lparr>x = 0.3, y = 0, z = 0\<rparr>, color = ''#1e88e5''\<rparr>
         \<lparr>x = 0, y = 1, z = 0\<rparr>)
      \<lparr>x = 0, y = 1, z = 0\<rparr> 0.3) =
     platform @
     [\<lparr>position = \<lparr>x = 0, y = 0.3, z = 0\<rparr>, color = ''#1e88e5''\<rparr>,
      \<lparr>position = \<lparr>x = 0.3, y = 0.3, z = 0\<rparr>, color = ''#1e88e5''\<rparr>,
      \<lparr>position = \<lparr>x = 0, y = 0.3, z = 0.3\<rparr>, color = ''#1e88e5''\<rparr>,
      \<lparr>position = \<lparr>x = 0.3, y = 0.3, z = 0.3\<rparr>, color = ''#1e88e5''\<rparr>]"
  using extrude_platform [of "\<lparr>position = \<lparr>x = 0.3, y = 0, z = 0\<rparr>, color = ''#1e88e5''\<rparr>"]
  by simp

subsection \<open>The normal derived from a face\<close>

text \<open>
  C8, as stated, fails: for the vector \<open>(1, 0, 1)\<close>, where X and Z tie, the code answers
  \<open>+Z\<close> and the specification's rule answers \<open>+X\<close>.
\<close>

theorem normalizedNormal_tie_counterexample:
  "normalizedNormal \<lparr>x = 1, y = 0, z = 1\<rparr> = \<lparr>x = 0, y = 0, z = 1\<rparr> \<and>
   dominantAxis \<lparr>x = 1, y = 0, z = 1\<rparr> = \<lparr>x = 1, y = 0, z = 0\<rparr>"
  by (simp add: normalizedNormal_def dominantAxis_def)

text \<open>
  C8, amended. When the X component (or the Y component) is strictly larger in absolute
  value than both others, the normal is that axis with the component's sign; when the Z
  component is nonzero and at least as large in absolute value as both others, the normal
  is the Z axis with the sign of the Z component: a tie that involves Z goes to Z.
\<close>

theorem normalizedNormal_dominant:
  "(\<bar>x v\<bar> > \<bar>y v\<bar> \<and> \<bar>x v\<bar> > \<bar>z v\<bar> \<longrightarrow>
      normalizedNormal v = \<lparr>x = sgn (x v), y = 0, z = 0\<rparr>) \<and>
   (\<bar>y v\<bar> > \<bar>x v\<bar> \<and> \<bar>y v\<bar> > \<bar>z v\<bar> \<longrightarrow>
      normalizedNormal v = \<lparr>x = 0, y = sgn (y v), z = 0\<rparr>) \<and>
   (\<bar>z v\<bar> \<ge> \<bar>x v\<bar> \<and> \<bar>z v\<bar> \<ge> \<bar>y v\<bar> \<and> z v \<noteq> 0 \<longrightarrow>
      normalizedNormal v = \<lparr>x = 0, y = 0, z = sgn (z v)\<rparr>)"
  by (auto simp: normalizedNormal_def Let_def sgn_if)

theorem normalizedNormal_dominant_witness:
  "normalizedNormal \<lparr>x = - 3, y = 1, z = 2\<rparr> = \<lparr>x = - 1, y = 0, z = 0\<rparr> \<and>
   normalizedNormal \<lparr>x = 1, y = 2, z = - 1\<rparr> = \<lparr>x = 0, y = 1, z = 0\<rparr> \<and>
   normalizedNormal \<lparr>x = 1, y = 0, z = - 1\<rparr> = \<lparr>x = 0, y = 0, z = - 1\<rparr>"
  using normalizedNormal_dominant [of "\<lparr>x = - 3, y = 1, z = 2\<rparr>"]
    normalizedNormal_dominant [of "\<lparr>x = 1, y = 2, z = - 1\<rparr>"]
    normalizedNormal_dominant [of "\<lparr>x = 1, y = 0, z = - 1\<rparr>"]
  by simp

subsection \<open>The coplanar group\<close>




subsection \<open>Positions on the grid\<close>

text \<open>Grid arithmetic.\<close>

lemma abs_of_int_small: "\<bar>real_of_int k\<bar> < 1 \<Longrightarrow> k = 0"
  by linarith

lemma Math_round_of_int: "Math_round (real_of_int m) = m"
  unfolding Math_round_def by linarith

lemma gridC_iff:
  "real_of_int (Math_round (c / 0.3)) * 0.3 = c \<longleftrightarrow> (\<exists>m::int. c = real_of_int m * 0.3)"
proof
  assume "real_of_int (Math_round (c / 0.3)) * 0.3 = c"
  then show "\<exists>m::int. c = real_of_int m * 0.3" by metis
next
  assume "\<exists>m::int. c = real_of_int m * 0.3"
  then obtain m :: int where c: "c = real_of_int m * 0.3" by blast
  then have "c / 0.3 = real_of_int m" by simp
  then show "real_of_int (Math_round (c / 0.3)) * 0.3 = c"
    using c by (simp only: Math_round_of_int)
qed

lemma grid_close_eq:
  assumes "c = real_of_int m * 0.3" "c' = real_of_int m' * 0.3" "\<bar>c - c'\<bar> < 0.01"
  shows "c = c'"
proof -
  from assms have "\<bar>real_of_int m - real_of_int m'\<bar> < 1" by simp argo
  then have "\<bar>real_of_int (m - m')\<bar> < 1" by simp
  then have "m - m' = 0" by (rule abs_of_int_small)
  with assms show ?thesis by simp
qed

lemma onGrid_iff:
  "onGrid p \<longleftrightarrow> (\<exists>i j k :: int. p = \<lparr>x = real_of_int i * 0.3, y = real_of_int j * 0.3, z = real_of_int k * 0.3\<rparr>)"
proof
  assume "onGrid p"
  then have "p = \<lparr>x = real_of_int (Math_round (x p / 0.3)) * 0.3,
             y = real_of_int (Math_round (y p / 0.3)) * 0.3,
             z = real_of_int (Math_round (z p / 0.3)) * 0.3\<rparr>"
    by (simp add: onGrid_def snap_def)
  then show "\<exists>i j k :: int. p = \<lparr>x = real_of_int i * 0.3, y = real_of_int j * 0.3, z = real_of_int k * 0.3\<rparr>"
    by blast
next
  assume "\<exists>i j k :: int. p = \<lparr>x = real_of_int i * 0.3, y = real_of_int j * 0.3, z = real_of_int k * 0.3\<rparr>"
  then obtain i j k :: int where p: "p = \<lparr>x = real_of_int i * 0.3, y = real_of_int j * 0.3, z = real_of_int k * 0.3\<rparr>"
    by blast
  have "real_of_int (Math_round (x p / 0.3)) * 0.3 = x p"
    "real_of_int (Math_round (y p / 0.3)) * 0.3 = y p"
    "real_of_int (Math_round (z p / 0.3)) * 0.3 = z p"
    unfolding gridC_iff using p by auto
  then show "onGrid p"
    by (simp add: onGrid_def snap_def)
qed

lemma onGrid_closeTo_eq:
  assumes "onGrid p" "onGrid q" "closeTo p q"
  shows "p = q"
proof -
  from assms(1) obtain i j k :: int where p: "p = \<lparr>x = real_of_int i * 0.3, y = real_of_int j * 0.3, z = real_of_int k * 0.3\<rparr>"
    unfolding onGrid_iff by blast
  from assms(2) obtain i' j' k' :: int where q: "q = \<lparr>x = real_of_int i' * 0.3, y = real_of_int j' * 0.3, z = real_of_int k' * 0.3\<rparr>"
    unfolding onGrid_iff by blast
  from assms(3) have "\<bar>x p - x q\<bar> < 0.01" "\<bar>y p - y q\<bar> < 0.01" "\<bar>z p - z q\<bar> < 0.01"
    by (simp_all add: closeTo_def)
  then have "x p = x q" "y p = y q" "z p = z q"
    using grid_close_eq [of "x p" i "x q" i'] grid_close_eq [of "y p" j "y q" j']
      grid_close_eq [of "z p" k "z q" k'] p q by simp_all
  then show ?thesis by simp
qed

lemma axisUnit_cases:
  assumes "axisUnit n"
  obtains s :: int where "s = 1 \<or> s = - 1" "n = \<lparr>x = real_of_int s, y = 0, z = 0\<rparr>"
  | s :: int where "s = 1 \<or> s = - 1" "n = \<lparr>x = 0, y = real_of_int s, z = 0\<rparr>"
  | s :: int where "s = 1 \<or> s = - 1" "n = \<lparr>x = 0, y = 0, z = real_of_int s\<rparr>"
proof -
  have r: "\<bar>c\<bar> = 1 \<Longrightarrow> \<exists>s::int. (s = 1 \<or> s = - 1) \<and> c = real_of_int s" for c :: real
  proof -
    assume "\<bar>c\<bar> = 1"
    then have "c = real_of_int 1 \<or> c = real_of_int (- 1)" by auto
    then show ?thesis by blast
  qed
  from assms consider "\<bar>x n\<bar> = 1" "y n = 0" "z n = 0" | "x n = 0" "\<bar>y n\<bar> = 1" "z n = 0"
    | "x n = 0" "y n = 0" "\<bar>z n\<bar> = 1"
    unfolding axisUnit_def by blast
  then show thesis
  proof cases
    case 1
    from r [OF 1(1)] obtain s :: int where "s = 1 \<or> s = - 1" "x n = real_of_int s" by blast
    with 1 that(1) [of s] show thesis by (cases n) simp
  next
    case 2
    from r [OF 2(2)] obtain s :: int where "s = 1 \<or> s = - 1" "y n = real_of_int s" by blast
    with 2 that(2) [of s] show thesis by (cases n) simp
  next
    case 3
    from r [OF 3(3)] obtain s :: int where "s = 1 \<or> s = - 1" "z n = real_of_int s" by blast
    with 3 that(3) [of s] show thesis by (cases n) simp
  qed
qed

lemma onGrid_shift:
  assumes "onGrid p" "axisUnit n"
  shows "onGrid (shift n p i)"
proof -
  from assms(1) obtain a b c :: int where p: "p = \<lparr>x = real_of_int a * 0.3, y = real_of_int b * 0.3, z = real_of_int c * 0.3\<rparr>"
    unfolding onGrid_iff by blast
  from assms(2) show ?thesis
  proof (cases rule: axisUnit_cases)
    case (1 s)
    have "shift n p i = \<lparr>x = real_of_int (a + s * i) * 0.3, y = real_of_int b * 0.3, z = real_of_int c * 0.3\<rparr>"
      by (simp add: shift_def add_def multiplyScalar_def p 1 algebra_simps)
    then show ?thesis unfolding onGrid_iff by blast
  next
    case (2 s)
    have "shift n p i = \<lparr>x = real_of_int a * 0.3, y = real_of_int (b + s * i) * 0.3, z = real_of_int c * 0.3\<rparr>"
      by (simp add: shift_def add_def multiplyScalar_def p 2 algebra_simps)
    then show ?thesis unfolding onGrid_iff by blast
  next
    case (3 s)
    have "shift n p i = \<lparr>x = real_of_int a * 0.3, y = real_of_int b * 0.3, z = real_of_int (c + s * i) * 0.3\<rparr>"
      by (simp add: shift_def add_def multiplyScalar_def p 3 algebra_simps)
    then show ?thesis unfolding onGrid_iff by blast
  qed
qed

lemma shift_plane_inj:
  assumes n: "axisUnit n"
    and "distToPlane n ph p < 0.01" "distToPlane n ph p' < 0.01"
    and eq: "shift n p i = shift n p' j"
  shows "i = j \<and> p = p'"
proof -
  from eq have e: "x p + x n * (real_of_int i * 0.3) = x p' + x n * (real_of_int j * 0.3)"
    "y p + y n * (real_of_int i * 0.3) = y p' + y n * (real_of_int j * 0.3)"
    "z p + z n * (real_of_int i * 0.3) = z p' + z n * (real_of_int j * 0.3)"
    by (simp_all add: shift_def add_def multiplyScalar_def)
  from assms(2,3) have d: "\<bar>x n * x p + y n * y p + z n * z p + - (x n * x ph + y n * y ph + z n * z ph)\<bar> < 0.01"
    "\<bar>x n * x p' + y n * y p' + z n * z p' + - (x n * x ph + y n * y ph + z n * z ph)\<bar> < 0.01"
    unfolding distToPlane_def Let_def by blast+
  have "\<bar>real_of_int i - real_of_int j\<bar> < 1"
    using n
  proof (cases rule: axisUnit_cases)
    case (1 s)
    then consider "n = \<lparr>x = 1, y = 0, z = 0\<rparr>" | "n = \<lparr>x = - 1, y = 0, z = 0\<rparr>" by auto
    then show ?thesis using e(1) d by cases (simp, argo)+
  next
    case (2 s)
    then consider "n = \<lparr>x = 0, y = 1, z = 0\<rparr>" | "n = \<lparr>x = 0, y = - 1, z = 0\<rparr>" by auto
    then show ?thesis using e(2) d by cases (simp, argo)+
  next
    case (3 s)
    then consider "n = \<lparr>x = 0, y = 0, z = 1\<rparr>" | "n = \<lparr>x = 0, y = 0, z = - 1\<rparr>" by auto
    then show ?thesis using e(3) d by cases (simp, argo)+
  qed
  then have "\<bar>real_of_int (i - j)\<bar> < 1" by simp
  then have "i - j = 0" by (rule abs_of_int_small)
  then have ij: "i = j" by simp
  with e have "x p = x p'" "y p = y p'" "z p = z p'" by simp_all
  with ij show ?thesis by simp
qed


lemma voxelsInPlane_subset: "set (voxelsInPlane n ph vs) \<subseteq> set vs"
  by (auto simp: voxelsInPlane_def)

lemma voxelsInPlane_dist: "g \<in> set (voxelsInPlane n ph vs) \<Longrightarrow> distToPlane n ph (position g) < 0.01"
  by (auto simp: voxelsInPlane_def)

lemma closeTo_refl: "closeTo p p"
  by (simp add: closeTo_def)



lemma gridState_iff:
  "gridState s \<longleftrightarrow>
     (\<forall>v \<in> set (voxels s). onGrid (position v)) \<and>
     distinct (map position (voxels s)) \<and>
     (\<forall>f. selectedFace s = Some f \<longrightarrow> axisUnit (normal f))"
  by (auto simp: gridState_def list_all_iff split: option.splits)



subsection \<open>Push, then pull from the outer face\<close>

text \<open>Levels along the normal.\<close>

lemma distToPlane_alongNormal: "distToPlane n q p = \<bar>alongNormal n p - alongNormal n q\<bar>"
  by (simp add: distToPlane_def alongNormal_def Let_def)

lemma alongNormal_shift:
  assumes "axisUnit n"
  shows "alongNormal n (shift n p i) = alongNormal n p + real_of_int i * 0.3"
  using assms
  by (cases rule: axisUnit_cases) (auto simp: alongNormal_def shift_def add_def multiplyScalar_def)

lemma alongNormal_close:
  assumes "axisUnit n" "closeTo p q"
  shows "\<bar>alongNormal n p - alongNormal n q\<bar> < 0.01"
proof -
  from assms(2) have c: "\<bar>x p - x q\<bar> < 0.01" "\<bar>y p - y q\<bar> < 0.01" "\<bar>z p - z q\<bar> < 0.01"
    by (simp_all add: closeTo_def)
  from assms(1) show ?thesis
  proof (cases rule: axisUnit_cases)
    case (1 s)
    then have "alongNormal n p - alongNormal n q = x p - x q \<or> alongNormal n p - alongNormal n q = - (x p - x q)"
      by (auto simp: alongNormal_def)
    with c(1) show ?thesis by linarith
  next
    case (2 s)
    then have "alongNormal n p - alongNormal n q = y p - y q \<or> alongNormal n p - alongNormal n q = - (y p - y q)"
      by (auto simp: alongNormal_def)
    with c(2) show ?thesis by linarith
  next
    case (3 s)
    then have "alongNormal n p - alongNormal n q = z p - z q \<or> alongNormal n p - alongNormal n q = - (z p - z q)"
      by (auto simp: alongNormal_def)
    with c(3) show ?thesis by linarith
  qed
qed

lemma alongNormal_grid:
  assumes "axisUnit n" "onGrid p"
  shows "\<exists>m::int. alongNormal n p = real_of_int m * 0.3"
proof -
  from assms(2) obtain a b c :: int where
    p: "p = \<lparr>x = real_of_int a * 0.3, y = real_of_int b * 0.3, z = real_of_int c * 0.3\<rparr>"
    unfolding onGrid_iff by blast
  from assms(1) show ?thesis
  proof (cases rule: axisUnit_cases)
    case (1 s)
    have "alongNormal n p = real_of_int (s * a) * 0.3"
      unfolding alongNormal_def p 1(2) by simp
    then show ?thesis by blast
  next
    case (2 s)
    have "alongNormal n p = real_of_int (s * b) * 0.3"
      unfolding alongNormal_def p 2(2) by simp
    then show ?thesis by blast
  next
    case (3 s)
    have "alongNormal n p = real_of_int (s * c) * 0.3"
      unfolding alongNormal_def p 3(2) by simp
    then show ?thesis by blast
  qed
qed

lemma grid_level_eq:
  assumes "\<bar>real_of_int a * 0.3 - real_of_int b * 0.3\<bar> < 0.3"
  shows "a = b"
proof -
  from assms have "\<bar>real_of_int a - real_of_int b\<bar> < 1"
    by linarith
  then have "\<bar>real_of_int (a - b)\<bar> < 1" by simp
  then have "a - b = 0" by (rule abs_of_int_small)
  then show ?thesis by simp
qed

lemma alongNormal_grid_eq:
  assumes n: "axisUnit n" and "onGrid p" "onGrid q"
    and c: "\<bar>alongNormal n p - (alongNormal n q + real_of_int i * 0.3)\<bar> < 0.3"
  shows "alongNormal n p = alongNormal n q + real_of_int i * 0.3"
proof -
  from alongNormal_grid [OF n assms(2)] obtain a :: int where a: "alongNormal n p = real_of_int a * 0.3" by blast
  from alongNormal_grid [OF n assms(3)] obtain b :: int where b: "alongNormal n q = real_of_int b * 0.3" by blast
  from c have "\<bar>real_of_int a * 0.3 - (real_of_int b * 0.3 + real_of_int i * 0.3)\<bar> < 0.3"
    unfolding a b .
  then have "\<bar>real_of_int a * 0.3 - real_of_int (b + i) * 0.3\<bar> < 0.3"
    by (simp only: of_int_add distrib_right)
  then have "a = b + i" by (rule grid_level_eq)
  then show ?thesis unfolding a b by (simp add: algebra_simps)
qed

lemma alongNormal_grid_eq0:
  assumes "axisUnit n" "onGrid p" "onGrid q" "\<bar>alongNormal n p - alongNormal n q\<bar> < 0.3"
  shows "alongNormal n p = alongNormal n q"
  using alongNormal_grid_eq [OF assms(1-3), of 0] assms(4) by simp

lemma tol: "(0.01::real) = 1 / 100"
  by simp

lemma abs_tol_less_cell: "\<bar>a\<bar> < 0.01 \<Longrightarrow> \<bar>a\<bar> < (0.3::real)"
  by simp

lemma shift_shift: "shift n (shift n p i) j = shift n p (i + j)"
  by (simp add: shift_def add_def multiplyScalar_def algebra_simps)

lemma shift_zero: "shift n p 0 = p"
  by (simp add: shift_def add_def multiplyScalar_def)

lemma shift_one: "add p (multiplyScalar n 0.3) = shift n p 1"
  by (simp add: shift_def)

lemma shift_minus: "add p (multiplyScalar n (- real_of_int i * 0.3)) = shift n p (- i)"
  by (simp add: shift_def)

lemma concat_map_if_all:
  assumes "\<And>i. i \<in> set is \<Longrightarrow> P i"
  shows "concat (map (\<lambda>i. if P i then [F i] else []) is) = map F is"
  using assms by (induction "is") simp_all

lemma filter_layers:
  assumes "1 \<le> k" "\<And>i. 1 \<le> i \<Longrightarrow> i \<le> k \<Longrightarrow> Q (F i) \<longleftrightarrow> i = k"
  shows "filter Q (map F [1..k]) = [F k]"
proof -
  from assms(1) have "[1..k] = [1..k - 1] @ [k]"
    by (simp add: upto_rec2)
  moreover have "filter Q (map F [1..k - 1]) = []"
    using assms(2) by (auto simp: filter_empty_conv)
  moreover have "Q (F k)"
    using assms by simp
  ultimately show ?thesis by simp
qed

lemma filter_columns:
  assumes "1 \<le> k" "\<And>g i. g \<in> set G \<Longrightarrow> 1 \<le> i \<Longrightarrow> i \<le> k \<Longrightarrow> Q (F g i) \<longleftrightarrow> i = k"
  shows "filter Q (concat (map (\<lambda>g. map (F g) [1..k]) G)) = map (\<lambda>g. F g k) G"
  using assms(2)
proof (induction G)
  case Nil
  then show ?case by simp
next
  case (Cons g G)
  have "filter Q (map (F g) [1..k]) = [F g k]"
    using assms(1) Cons.prems by (intro filter_layers) simp_all
  moreover have "filter Q (concat (map (\<lambda>g. map (F g) [1..k]) G)) = map (\<lambda>g. F g k) G"
    using Cons by simp
  ultimately show ?case by simp
qed

lemma slab_level:
  assumes n: "axisUnit n" and fr: "slabFree vs n ph k"
    and g: "g \<in> set (voxelsInPlane n ph vs)" and v: "v \<in> set vs"
    and i: "1 \<le> i" "i \<le> k + 1"
  shows "alongNormal n (position v) \<noteq> alongNormal n (position g) + real_of_int i * 0.3"
proof
  assume e: "alongNormal n (position v) = alongNormal n (position g) + real_of_int i * 0.3"
  from g have "\<bar>alongNormal n (position g) - alongNormal n ph\<bar> < 0.01"
    using voxelsInPlane_dist [of g n ph vs] by (simp add: distToPlane_alongNormal)
  then have "\<bar>alongNormal n (position g) + real_of_int i * 0.3 - (alongNormal n ph + real_of_int i * 0.3)\<bar> < 0.01"
    by linarith
  then have "distToPlane n (shift n ph i) (position v) < 0.01"
    unfolding distToPlane_alongNormal alongNormal_shift [OF n] e .
  moreover from fr v i have "\<not> distToPlane n (shift n ph i) (position v) < 0.01"
    by (simp add: slabFree_def list_all_iff)
  ultimately show False by simp
qed

lemma plane_level:
  assumes n: "axisUnit n" and og: "\<And>v. v \<in> set vs \<Longrightarrow> onGrid (position v)"
    and g: "g \<in> set (voxelsInPlane n ph vs)" and g': "g' \<in> set (voxelsInPlane n ph vs)"
  shows "alongNormal n (position g) = alongNormal n (position g')"
proof -
  from g g' have "\<bar>alongNormal n (position g) - alongNormal n ph\<bar> < 0.01" "\<bar>alongNormal n (position g') - alongNormal n ph\<bar> < 0.01"
    using voxelsInPlane_dist [of _ n ph vs] by (simp_all add: distToPlane_alongNormal)
  then have "\<bar>alongNormal n (position g) - alongNormal n (position g')\<bar> < 0.3"
    unfolding tol by linarith
  moreover from g g' og have "onGrid (position g)" "onGrid (position g')"
    using voxelsInPlane_subset by blast+
  ultimately show ?thesis
    using alongNormal_grid_eq0 [OF n] by blast
qed

lemma close_level:
  assumes n: "axisUnit n" and "closeTo p (shift n q i)"
  shows "\<bar>alongNormal n p - (alongNormal n q + real_of_int i * 0.3)\<bar> < 0.01"
  using alongNormal_close [OF n assms(2)] unfolding alongNormal_shift [OF n] .

lemma layer_eq:
  assumes "\<bar>real_of_int i * 0.3 - real_of_int j * 0.3\<bar> < 0.01"
  shows "i = j"
proof -
  from assms have "\<bar>real_of_int i * 0.3 - real_of_int j * 0.3\<bar> < 0.3"
    by (rule abs_tol_less_cell)
  then show ?thesis by (rule grid_level_eq)
qed

lemma extrusion_complete:
  assumes n: "axisUnit n" and og: "\<And>v. v \<in> set vs \<Longrightarrow> onGrid (position v)"
    and fr: "slabFree vs n ph k"
  shows "newVoxels n k vs (voxelsInPlane n ph vs) =
    concat (map (\<lambda>g. map (extruded n g) [1..k]) (voxelsInPlane n ph vs))"
proof -
  let ?G = "voxelsInPlane n ph vs"
  have free: "\<not> someCloseTo vs (shift n (position g) i)" if g: "g \<in> set ?G" and i: "i \<in> set [1..k]"
    for g i
  proof
    assume "someCloseTo vs (shift n (position g) i)"
    then obtain v where v: "v \<in> set vs" "closeTo (position v) (shift n (position g) i)"
      by (auto simp: someCloseTo_def list_ex_iff)
    from g og have "onGrid (position g)"
      using voxelsInPlane_subset by blast
    moreover note og [OF v(1)]
    moreover from close_level [OF n v(2)]
    have "\<bar>alongNormal n (position v) - (alongNormal n (position g) + real_of_int i * 0.3)\<bar> < 0.3"
      by (rule abs_tol_less_cell)
    ultimately have "alongNormal n (position v) = alongNormal n (position g) + real_of_int i * 0.3"
      using alongNormal_grid_eq [OF n] by blast
    with slab_level [OF n fr g v(1), of i] i show False by simp
  qed
  have col: "concat (map (\<lambda>i. if \<not> someCloseTo vs (shift n (position g) i)
        then [extruded n g i] else []) [1..k]) = map (extruded n g) [1..k]" if "g \<in> set ?G" for g
    using free [OF that] by (rule concat_map_if_all)
  have "newVoxels n k vs ?G = concat (map (\<lambda>g. concat (map (\<lambda>i.
      if \<not> someCloseTo vs (shift n (position g) i) then [extruded n g i] else []) [1..k])) ?G)"
    unfolding newVoxels_def Let_def shift_def extruded_def ..
  also have "\<dots> = concat (map (\<lambda>g. map (extruded n g) [1..k]) ?G)"
    using col by (simp cong: map_cong)
  finally show ?thesis .
qed

text \<open>The group of the outer face after a push, and what a pull from it removes.\<close>

lemma set_columns:
  "w \<in> set (concat (map (\<lambda>g. map (extruded n g) [1..k]) G)) \<longleftrightarrow>
     (\<exists>g i. g \<in> set G \<and> 1 \<le> i \<and> i \<le> k \<and> w = extruded n g i)"
  by (fastforce simp: image_iff)

lemma abs_cancel_level:
  "a = a' \<Longrightarrow> \<bar>a + b - (a' + c)\<bar> < (t::real) \<Longrightarrow> \<bar>b - c\<bar> < t"
  by simp

lemma position_extruded: "position (extruded n g i) = shift n (position g) i"
  by (simp add: extruded_def)

lemma outer_face:
  assumes n: "axisUnit n" and og: "\<And>v. v \<in> set vs \<Longrightarrow> onGrid (position v)"
    and k: "1 \<le> k" and fr: "slabFree vs n ph k"
    and g0: "g0 \<in> set (voxelsInPlane n ph vs)"
  shows "voxelsInPlane n (shift n (position g0) k)
      (vs @ concat (map (\<lambda>g. map (extruded n g) [1..k]) (voxelsInPlane n ph vs))) =
    map (\<lambda>g. extruded n g k) (voxelsInPlane n ph vs)"
proof -
  let ?G = "voxelsInPlane n ph vs"
  let ?N = "concat (map (\<lambda>g. map (extruded n g) [1..k]) ?G)"
  let ?ph1 = "shift n (position g0) k"
  let ?Q = "\<lambda>voxel. distToPlane n ?ph1 (position voxel) < 0.01 \<and>
      \<not> someCloseTo (vs @ ?N) (shift n (position voxel) 1)"
  have gG: "onGrid (position g)" if "g \<in> set ?G" for g
    using that og voxelsInPlane_subset by blast
  have pl: "alongNormal n (position g) = alongNormal n (position g')" if "g \<in> set ?G" "g' \<in> set ?G" for g g'
    using n og that by (rule plane_level)
  have old: "\<not> distToPlane n ?ph1 (position v) < 0.01" if v: "v \<in> set vs" for v
  proof
    assume "distToPlane n ?ph1 (position v) < 0.01"
    then have "\<bar>alongNormal n (position v) - (alongNormal n (position g0) + real_of_int k * 0.3)\<bar> < 0.01"
      unfolding distToPlane_alongNormal alongNormal_shift [OF n] .
    then have "\<bar>alongNormal n (position v) - (alongNormal n (position g0) + real_of_int k * 0.3)\<bar> < 0.3"
      by (rule abs_tol_less_cell)
    with og [OF v] gG [OF g0]
    have "alongNormal n (position v) = alongNormal n (position g0) + real_of_int k * 0.3"
      using alongNormal_grid_eq [OF n] by blast
    with slab_level [OF n fr g0 v, of k] k show False by simp
  qed
  have new: "?Q (extruded n g i) \<longleftrightarrow> i = k" if g: "g \<in> set ?G" and i: "1 \<le> i" "i \<le> k" for g i
  proof
    assume "?Q (extruded n g i)"
    then have "distToPlane n ?ph1 (shift n (position g) i) < 0.01"
      by (simp add: position_extruded)
    then have "\<bar>alongNormal n (position g) + real_of_int i * 0.3 -
        (alongNormal n (position g0) + real_of_int k * 0.3)\<bar> < 0.01"
      unfolding distToPlane_alongNormal alongNormal_shift [OF n] .
    then have "\<bar>real_of_int i * 0.3 - real_of_int k * 0.3\<bar> < 0.01"
      by (rule abs_cancel_level [OF pl [OF g g0]])
    then show "i = k" by (rule layer_eq)
  next
    assume ik: "i = k"
    have "distToPlane n ?ph1 (shift n (position g) k) < 0.01"
      unfolding distToPlane_alongNormal alongNormal_shift [OF n] using pl [OF g g0] by simp
    moreover have "\<not> someCloseTo (vs @ ?N) (shift n (position g) (k + 1))"
    proof
      assume "someCloseTo (vs @ ?N) (shift n (position g) (k + 1))"
      then obtain w where w: "w \<in> set vs \<or> w \<in> set ?N"
          "closeTo (position w) (shift n (position g) (k + 1))"
        by (auto simp: someCloseTo_def list_ex_iff)
      from w(1) show False
      proof
        assume v: "w \<in> set vs"
        from close_level [OF n w(2)]
        have "\<bar>alongNormal n (position w) - (alongNormal n (position g) + real_of_int (k + 1) * 0.3)\<bar> < 0.3"
          by (rule abs_tol_less_cell)
        with og [OF v] gG [OF g]
        have "alongNormal n (position w) = alongNormal n (position g) + real_of_int (k + 1) * 0.3"
          using alongNormal_grid_eq [OF n] by blast
        with slab_level [OF n fr g v, of "k + 1"] k show False by simp
      next
        assume "w \<in> set ?N"
        then obtain g' j where g': "g' \<in> set ?G" and j: "1 \<le> j" "j \<le> k" and wm: "w = extruded n g' j"
          unfolding set_columns by blast
        from close_level [OF n w(2)]
        have "\<bar>alongNormal n (position g') + real_of_int j * 0.3 -
            (alongNormal n (position g) + real_of_int (k + 1) * 0.3)\<bar> < 0.01"
          unfolding wm position_extruded alongNormal_shift [OF n] .
        then have "\<bar>real_of_int j * 0.3 - real_of_int (k + 1) * 0.3\<bar> < 0.01"
          by (rule abs_cancel_level [OF pl [OF g' g]])
        then have "j = k + 1" by (rule layer_eq)
        with j show False by simp
      qed
    qed
    ultimately show "?Q (extruded n g i)"
      unfolding ik by (simp add: position_extruded shift_shift)
  qed
  have "voxelsInPlane n ?ph1 (vs @ ?N) = filter ?Q (vs @ ?N)"
    unfolding voxelsInPlane_def Let_def shift_one ..
  also have "\<dots> = filter ?Q vs @ filter ?Q ?N"
    by simp
  also have "filter ?Q vs = []"
    using old by (simp add: filter_empty_conv)
  also have "filter ?Q ?N = map (\<lambda>g. extruded n g k) ?G"
    using k new by (rule filter_columns)
  finally show ?thesis by simp
qed

lemma set_positionsToRemove:
  "p \<in> set (positionsToRemove n k W G1) \<longleftrightarrow>
     (\<exists>g1 i e. g1 \<in> set G1 \<and> 1 \<le> i \<and> i \<le> k \<and> e \<in> set W \<and> position e = p \<and>
        closeTo (position e) (shift n (position g1) (- i)))"
  unfolding positionsToRemove_def Let_def shift_minus by fastforce

lemma retract_outer:
  assumes n: "axisUnit n" and og: "\<And>v. v \<in> set vs \<Longrightarrow> onGrid (position v)"
    and di: "distinct (map position vs)"
    and k: "1 \<le> k" and fr: "slabFree vs n ph k"
  shows "filter (\<lambda>voxel. position voxel \<notin> set (positionsToRemove n k
        (vs @ concat (map (\<lambda>g. map (extruded n g) [1..k]) (voxelsInPlane n ph vs)))
        (map (\<lambda>g. extruded n g k) (voxelsInPlane n ph vs))))
      (vs @ concat (map (\<lambda>g. map (extruded n g) [1..k]) (voxelsInPlane n ph vs))) =
    filter (\<lambda>v. v \<notin> set (voxelsInPlane n ph vs)) vs @
      map (\<lambda>g. extruded n g k) (voxelsInPlane n ph vs)"
proof -
  let ?G = "voxelsInPlane n ph vs"
  let ?N = "concat (map (\<lambda>g. map (extruded n g) [1..k]) ?G)"
  let ?W = "vs @ ?N"
  let ?T = "set (positionsToRemove n k ?W (map (\<lambda>g. extruded n g k) ?G))"
  have gG: "onGrid (position g)" if "g \<in> set ?G" for g
    using that og voxelsInPlane_subset by blast
  have gW: "onGrid (position e)" if "e \<in> set ?W" for e
  proof -
    from that consider "e \<in> set vs" | "e \<in> set ?N" by auto
    then show ?thesis
    proof cases
      case 1
      then show ?thesis by (rule og)
    next
      case 2
      then obtain g i where "g \<in> set ?G" "e = extruded n g i"
        unfolding set_columns by blast
      with gG n show ?thesis
        by (simp add: position_extruded onGrid_shift)
    qed
  qed
  have inT: "position e \<in> ?T \<longleftrightarrow>
      (\<exists>g j. g \<in> set ?G \<and> 0 \<le> j \<and> j \<le> k - 1 \<and> position e = shift n (position g) j)"
    if e: "e \<in> set ?W" for e
  proof
    assume "position e \<in> ?T"
    then obtain g1 i e' where g1: "g1 \<in> set (map (\<lambda>g. extruded n g k) ?G)"
      and i: "1 \<le> i" "i \<le> k" and e': "e' \<in> set ?W"
      and pe: "position e' = position e"
      and c1: "closeTo (position e') (shift n (position g1) (- i))"
      unfolding set_positionsToRemove by blast
    from g1 obtain g where g: "g \<in> set ?G" and "g1 = extruded n g k"
      by auto
    with c1 have c: "closeTo (position e') (shift n (shift n (position g) k) (- i))"
      by (simp add: position_extruded)
    from c have "closeTo (position e) (shift n (position g) (k - i))"
      unfolding pe shift_shift by simp
    with gW [OF e] onGrid_shift [OF gG [OF g] n]
    have "position e = shift n (position g) (k - i)"
      by (intro onGrid_closeTo_eq)
    with g i show "\<exists>g j. g \<in> set ?G \<and> 0 \<le> j \<and> j \<le> k - 1 \<and> position e = shift n (position g) j"
      by (intro exI [of _ g] exI [of _ "k - i"]) simp
  next
    assume "\<exists>g j. g \<in> set ?G \<and> 0 \<le> j \<and> j \<le> k - 1 \<and> position e = shift n (position g) j"
    then obtain g j where g: "g \<in> set ?G" and j: "0 \<le> j" "j \<le> k - 1"
      and pe: "position e = shift n (position g) j"
      by blast
    have "shift n (shift n (position g) k) (- (k - j)) = shift n (position g) j"
      unfolding shift_shift by simp
    then have "closeTo (position e) (shift n (position (extruded n g k)) (- (k - j)))"
      unfolding position_extruded pe by (simp add: closeTo_refl)
    moreover have "extruded n g k \<in> set (map (\<lambda>g. extruded n g k) ?G)"
      using g by simp
    moreover have "1 \<le> k - j" "k - j \<le> k"
      using j by simp_all
    ultimately show "position e \<in> ?T"
      unfolding set_positionsToRemove using e by blast
  qed
  have old: "position v \<notin> ?T \<longleftrightarrow> v \<notin> set ?G" if v: "v \<in> set vs" for v
  proof -
    have "position v \<in> ?T \<longleftrightarrow> v \<in> set ?G"
    proof
      assume "position v \<in> ?T"
      then obtain g j where g: "g \<in> set ?G" and j: "0 \<le> j" "j \<le> k - 1"
        and pv: "position v = shift n (position g) j"
        using inT [of v] v by auto
      have "j = 0"
      proof (rule ccontr)
        assume "j \<noteq> 0"
        with j have "1 \<le> j" "j \<le> k + 1" by simp_all
        from slab_level [OF n fr g v this] show False
          unfolding pv alongNormal_shift [OF n] by simp
      qed
      with pv have "position v = position g"
        by (simp add: shift_zero)
      moreover from g have "g \<in> set vs"
        using voxelsInPlane_subset by blast
      ultimately have "v = g"
        using di v by (auto simp: distinct_map inj_on_def)
      with g show "v \<in> set ?G" by simp
    next
      assume "v \<in> set ?G"
      moreover have "position v = shift n (position v) 0"
        by (simp add: shift_zero)
      ultimately show "position v \<in> ?T"
        using inT [of v] v k by auto
    qed
    then show ?thesis by simp
  qed
  have new: "position (extruded n g i) \<notin> ?T \<longleftrightarrow> i = k"
    if g: "g \<in> set ?G" and i: "1 \<le> i" "i \<le> k" for g i
  proof -
    have "extruded n g i \<in> set ?N"
      unfolding set_columns using g i by blast
    then have w: "extruded n g i \<in> set ?W"
      by simp
    have "position (extruded n g i) \<in> ?T \<longleftrightarrow> i \<le> k - 1"
    proof
      assume "position (extruded n g i) \<in> ?T"
      then obtain g' j where g': "g' \<in> set ?G" and j: "0 \<le> j" "j \<le> k - 1"
        and e: "shift n (position g) i = shift n (position g') j"
        using inT [OF w] by (auto simp: position_extruded)
      from shift_plane_inj [OF n voxelsInPlane_dist [OF g] voxelsInPlane_dist [OF g'] e] j
      show "i \<le> k - 1" by simp
    next
      assume "i \<le> k - 1"
      with g i have "\<exists>g' j. g' \<in> set ?G \<and> 0 \<le> j \<and> j \<le> k - 1 \<and>
          position (extruded n g i) = shift n (position g') j"
        by (intro exI [of _ g] exI [of _ i]) (simp add: position_extruded)
      then show "position (extruded n g i) \<in> ?T"
        using inT [OF w] by blast
    qed
    with i show ?thesis by auto
  qed
  have "filter (\<lambda>voxel. position voxel \<notin> ?T) ?W =
      filter (\<lambda>voxel. position voxel \<notin> ?T) vs @ filter (\<lambda>voxel. position voxel \<notin> ?T) ?N"
    by simp
  also have "filter (\<lambda>voxel. position voxel \<notin> ?T) vs = filter (\<lambda>v. v \<notin> set ?G) vs"
    using old by (intro filter_cong) simp_all
  also have "filter (\<lambda>voxel. position voxel \<notin> ?T) ?N = map (\<lambda>g. extruded n g k) ?G"
    using k new by (rule filter_columns)
  finally show ?thesis .
qed

lemma round_layers: "Math_round (\<bar>real_of_int k * 0.3\<bar> / 0.3) = \<bar>k\<bar>"
  using Math_round_of_int [of "\<bar>k\<bar>"] by (simp add: abs_mult)

lemma pushPullFace_extrude:
  assumes f: "selectedFace s = Some f" and h: "hoveredVoxel s = Some h"
    and r: "Math_round (d / 0.3) = k" and k: "1 \<le> k"
    and G: "voxelsInPlane (normal f) (position h) (voxels s) \<noteq> []"
  shows "pushPullFace s na d =
    s\<lparr>voxels := voxels s @ newVoxels (normal f) k (voxels s)
      (voxelsInPlane (normal f) (position h) (voxels s))\<rparr>"
  unfolding pushPullFace_def Let_def r round_layers f h using k G by simp

lemma pushPullFace_retract:
  assumes f: "selectedFace s = Some f" and h: "hoveredVoxel s = Some h"
    and r: "Math_round (d / 0.3) = - k" and k: "1 \<le> k"
    and G: "voxelsInPlane (normal f) (position h) (voxels s) \<noteq> []"
  shows "voxels (pushPullFace s na d) =
    filter (\<lambda>voxel. position voxel \<notin> set (positionsToRemove (normal f) k (voxels s)
      (voxelsInPlane (normal f) (position h) (voxels s)))) (voxels s)"
  unfolding pushPullFace_def Let_def r round_layers f h using k G by simp

text \<open>
  C2, as stated, fails. On the platform, after one layer is pushed up and the pointer is on
  one of the new voxels, pulling one layer removes the four platform voxels, which lie
  behind the new face, and keeps the four new ones: the voxel at the origin is gone and the
  occupied positions are not the original ones. With the pointer left on the platform voxel
  the pull finds no exposed face and all eight voxels stay.
\<close>

theorem round_trip_counterexample:
  "voxels (pushPullFace
     (setHoveredVoxel
        (pushPullFace (handlePointerEnter useStore (hd platform) \<lparr>x = 0, y = 1, z = 0\<rparr>)
           \<lparr>x = 0, y = 1, z = 0\<rparr> 0.3)
        (Some \<lparr>position = \<lparr>x = 0, y = 0.3, z = 0\<rparr>, color = ''#1e88e5''\<rparr>))
     \<lparr>x = 0, y = 1, z = 0\<rparr> (- 0.3)) =
   [\<lparr>position = \<lparr>x = 0, y = 0.3, z = 0\<rparr>, color = ''#1e88e5''\<rparr>,
    \<lparr>position = \<lparr>x = 0.3, y = 0.3, z = 0\<rparr>, color = ''#1e88e5''\<rparr>,
    \<lparr>position = \<lparr>x = 0, y = 0.3, z = 0.3\<rparr>, color = ''#1e88e5''\<rparr>,
    \<lparr>position = \<lparr>x = 0.3, y = 0.3, z = 0.3\<rparr>, color = ''#1e88e5''\<rparr>] \<and>
   \<lparr>x = 0, y = 0, z = 0\<rparr> \<notin> set (map position (voxels (pushPullFace
     (setHoveredVoxel
        (pushPullFace (handlePointerEnter useStore (hd platform) \<lparr>x = 0, y = 1, z = 0\<rparr>)
           \<lparr>x = 0, y = 1, z = 0\<rparr> 0.3)
        (Some \<lparr>position = \<lparr>x = 0, y = 0.3, z = 0\<rparr>, color = ''#1e88e5''\<rparr>))
     \<lparr>x = 0, y = 1, z = 0\<rparr> (- 0.3)))) \<and>
   length (voxels (pushPullFace
     (pushPullFace (handlePointerEnter useStore (hd platform) \<lparr>x = 0, y = 1, z = 0\<rparr>)
        \<lparr>x = 0, y = 1, z = 0\<rparr> 0.3)
     \<lparr>x = 0, y = 1, z = 0\<rparr> (- 0.3))) = 8"
  by (simp add: pushPullFace_def handlePointerEnter_def normalizedNormal_def
      setSelectedFace_def setHoveredVoxel_def useStore_def
      platform_def voxelsInPlane_def distToPlane_def someCloseTo_def closeTo_def add_def
      multiplyScalar_def newVoxels_def positionsToRemove_def Math_round_def Let_def)

text \<open>
  C2, amended. Take a state whose voxels are on the grid with distinct positions and whose
  selected normal is an axis unit vector, a nonempty coplanar selection, \<open>k \<ge> 1\<close>, and no
  voxel in the \<open>k + 1\<close> planes in front of the selection plane. Pushing \<open>k\<close> layers, moving
  the pointer to a voxel of the outer layer and pulling \<open>k\<close> layers removes the selected
  voxels and the first \<open>k - 1\<close> new layers and keeps the outermost new layer: the selection
  ends \<open>k\<close> cells further along the normal, every other voxel is unchanged, and the number
  of voxels is the original one.
\<close>

lemma selection_count:
  "length (filter (\<lambda>v. v \<notin> set (voxelsInPlane n ph vs)) vs) +
   length (voxelsInPlane n ph vs) = length vs"
proof -
  let ?Q = "\<lambda>voxel. distToPlane n ph (position voxel) < 0.01 \<and>
      \<not> someCloseTo vs (add (position voxel) (multiplyScalar n 0.3))"
  have G: "voxelsInPlane n ph vs = filter ?Q vs"
    by (simp add: voxelsInPlane_def Let_def)
  have "filter (\<lambda>v. v \<notin> set (filter ?Q vs)) vs = filter (\<lambda>v. \<not> ?Q v) vs"
    by (rule filter_cong) auto
  then show ?thesis
    unfolding G using sum_length_filter_compl [of ?Q vs] by simp
qed

theorem push_pull_round_trip:
  assumes gs: "gridState s"
    and f: "selectedFace s = Some f" and h: "hoveredVoxel s = Some h"
    and k: "1 \<le> k"
    and up: "Math_round (d / 0.3) = k" and down: "Math_round (d' / 0.3) = - k"
    and fr: "slabFree (voxels s) (normal f) (position h) k"
    and g0: "g0 \<in> set (voxelsInPlane (normal f) (position h) (voxels s))"
    and h1: "position h1 = shift (normal f) (position g0) k"
  shows "voxels (pushPullFace (setHoveredVoxel (pushPullFace s na d) (Some h1)) nb d') =
    filter (\<lambda>v. v \<notin> set (voxelsInPlane (normal f) (position h) (voxels s))) (voxels s) @
    map (\<lambda>g. \<lparr>position = shift (normal f) (position g) k, color = color g\<rparr>)
      (voxelsInPlane (normal f) (position h) (voxels s)) \<and>
    length (voxels (pushPullFace (setHoveredVoxel (pushPullFace s na d) (Some h1)) nb d')) =
      length (voxels s)"
proof -
  let ?n = "normal f"
  let ?vs = "voxels s"
  let ?G = "voxelsInPlane ?n (position h) ?vs"
  let ?N = "concat (map (\<lambda>g. map (extruded ?n g) [1..k]) ?G)"
  let ?G1 = "map (\<lambda>g. extruded ?n g k) ?G"
  from gs f have n: "axisUnit ?n" and di: "distinct (map position ?vs)"
    and og: "\<And>v. v \<in> set ?vs \<Longrightarrow> onGrid (position v)"
    by (auto simp: gridState_iff)
  from g0 have G: "?G \<noteq> []" by auto
  have "pushPullFace s na d = s\<lparr>voxels := ?vs @ newVoxels ?n k ?vs ?G\<rparr>"
    using f h up k G by (rule pushPullFace_extrude)
  also have "newVoxels ?n k ?vs ?G = ?N"
    using n og fr by (rule extrusion_complete)
  finally have s1: "pushPullFace s na d = s\<lparr>voxels := ?vs @ ?N\<rparr>" .
  let ?s1 = "setHoveredVoxel (pushPullFace s na d) (Some h1)"
  have f1: "selectedFace ?s1 = Some f" and hv1: "hoveredVoxel ?s1 = Some h1"
    and v1: "voxels ?s1 = ?vs @ ?N"
    unfolding s1 by (simp_all add: setHoveredVoxel_def f)
  have G1: "voxelsInPlane ?n (position h1) (voxels ?s1) = ?G1"
    unfolding v1 h1 using n og k fr g0 by (rule outer_face)
  with G have "voxelsInPlane ?n (position h1) (voxels ?s1) \<noteq> []"
    by simp
  with f1 hv1 down k
  have "voxels (pushPullFace ?s1 nb d') =
      filter (\<lambda>voxel. position voxel \<notin> set (positionsToRemove ?n k (voxels ?s1)
        (voxelsInPlane ?n (position h1) (voxels ?s1)))) (voxels ?s1)"
    by (rule pushPullFace_retract)
  also have "\<dots> = filter (\<lambda>voxel. position voxel \<notin> set (positionsToRemove ?n k (?vs @ ?N) ?G1))
      (?vs @ ?N)"
    unfolding G1 unfolding v1 ..
  also have "\<dots> = filter (\<lambda>v. v \<notin> set ?G) ?vs @ ?G1"
    using n og di k fr by (rule retract_outer)
  finally have result: "voxels (pushPullFace ?s1 nb d') =
      filter (\<lambda>v. v \<notin> set ?G) ?vs @
      map (\<lambda>g. \<lparr>position = shift ?n (position g) k, color = color g\<rparr>) ?G"
    unfolding extruded_def .
  have "length (filter (\<lambda>v. v \<notin> set ?G) ?vs) + length ?G = length ?vs"
    using selection_count [of ?n "position h" ?vs] by simp
  with result show ?thesis
    by simp
qed

theorem push_pull_round_trip_witness:
  "slabFree platform \<lparr>x = 0, y = 1, z = 0\<rparr> \<lparr>x = 0, y = 0, z = 0\<rparr> 1 \<and>
   voxels (pushPullFace
     (setHoveredVoxel
        (pushPullFace (handlePointerEnter useStore (hd platform) \<lparr>x = 0, y = 1, z = 0\<rparr>)
           \<lparr>x = 0, y = 1, z = 0\<rparr> 0.3)
        (Some \<lparr>position = \<lparr>x = 0, y = 0.3, z = 0\<rparr>, color = ''#1e88e5''\<rparr>))
     \<lparr>x = 0, y = 1, z = 0\<rparr> (- 0.3)) =
   [\<lparr>position = \<lparr>x = 0, y = 0.3, z = 0\<rparr>, color = ''#1e88e5''\<rparr>,
    \<lparr>position = \<lparr>x = 0.3, y = 0.3, z = 0\<rparr>, color = ''#1e88e5''\<rparr>,
    \<lparr>position = \<lparr>x = 0, y = 0.3, z = 0.3\<rparr>, color = ''#1e88e5''\<rparr>,
    \<lparr>position = \<lparr>x = 0.3, y = 0.3, z = 0.3\<rparr>, color = ''#1e88e5''\<rparr>]"
proof -
  let ?up = "\<lparr>x = 0, y = 1, z = 0\<rparr> :: Vector3"
  let ?s = "handlePointerEnter useStore (hd platform) ?up"
  let ?f = "\<lparr>normal = ?up\<rparr>"
  let ?h1 = "\<lparr>position = \<lparr>x = 0, y = 0.3, z = 0\<rparr>, color = ''#1e88e5''\<rparr>"
  have f: "selectedFace ?s = Some ?f" and h: "hoveredVoxel ?s = Some (hd platform)"
    and vs: "voxels ?s = platform"
    by (simp_all add: handlePointerEnter_def normalizedNormal_def setSelectedFace_def
        setHoveredVoxel_def useStore_def)
  have G: "voxelsInPlane (normal ?f) (position (hd platform)) platform = platform"
    by (simp add: platform_def voxelsInPlane_def distToPlane_def someCloseTo_def closeTo_def
        add_def multiplyScalar_def)
  have gs: "gridState ?s"
    unfolding gridState_iff f vs
    by (simp add: platform_def onGrid_def snap_def Math_round_def axisUnit_def)
  have fr: "slabFree (voxels ?s) (normal ?f) (position (hd platform)) 1"
    unfolding vs
    by (simp add: slabFree_def platform_def distToPlane_def shift_def add_def multiplyScalar_def
        upto.simps)
  have g0: "hd platform \<in> set (voxelsInPlane (normal ?f) (position (hd platform)) (voxels ?s))"
    unfolding vs G by (simp add: platform_def)
  have h1: "position ?h1 = shift (normal ?f) (position (hd platform)) 1"
    by (simp add: shift_def add_def multiplyScalar_def platform_def)
  have k: "(1::int) \<le> 1"
    by simp
  have up: "Math_round (0.3 / 0.3) = 1" and down: "Math_round (- 0.3 / 0.3) = - 1"
    by (simp_all add: Math_round_def)
  have res: "filter (\<lambda>v. v \<notin> set platform) platform @
      map (\<lambda>g. \<lparr>position = shift (normal ?f) (position g) 1, color = color g\<rparr>) platform =
    [\<lparr>position = \<lparr>x = 0, y = 0.3, z = 0\<rparr>, color = ''#1e88e5''\<rparr>,
     \<lparr>position = \<lparr>x = 0.3, y = 0.3, z = 0\<rparr>, color = ''#1e88e5''\<rparr>,
     \<lparr>position = \<lparr>x = 0, y = 0.3, z = 0.3\<rparr>, color = ''#1e88e5''\<rparr>,
     \<lparr>position = \<lparr>x = 0.3, y = 0.3, z = 0.3\<rparr>, color = ''#1e88e5''\<rparr>]"
    by (simp add: platform_def shift_def add_def multiplyScalar_def)
  have fr0: "slabFree platform \<lparr>x = 0, y = 1, z = 0\<rparr> \<lparr>x = 0, y = 0, z = 0\<rparr> 1"
    using fr unfolding vs by (simp add: platform_def)
  from push_pull_round_trip [OF gs f h k up down fr g0 h1, of ?up ?up, THEN conjunct1]
  have "voxels (pushPullFace (setHoveredVoxel (pushPullFace ?s ?up 0.3) (Some ?h1)) ?up (- 0.3)) =
    [\<lparr>position = \<lparr>x = 0, y = 0.3, z = 0\<rparr>, color = ''#1e88e5''\<rparr>,
     \<lparr>position = \<lparr>x = 0.3, y = 0.3, z = 0\<rparr>, color = ''#1e88e5''\<rparr>,
     \<lparr>position = \<lparr>x = 0, y = 0.3, z = 0.3\<rparr>, color = ''#1e88e5''\<rparr>,
     \<lparr>position = \<lparr>x = 0.3, y = 0.3, z = 0.3\<rparr>, color = ''#1e88e5''\<rparr>]"
    unfolding vs G res .
  with fr0 show ?thesis ..
qed

subsection \<open>Positions near the grid\<close>











subsection \<open>One voxel per cell\<close>


















subsection \<open>Membership in the coplanar group\<close>












end
